theory Spec2Isabelle
  imports Complex_Main "HOL-Library.Product_Lexorder"
begin

section \<open>The simulation engine of \<^verbatim>\<open>life.py\<close>\<close>

text \<open>
  The class \<^verbatim>\<open>GameOfLife\<close> is a record with the five attributes that
  \<^verbatim>\<open>__init__\<close> assigns. Python's unbounded integers are \<open>int\<close>, the set of
  coordinate tuples is a set of pairs. Every method takes the engine and returns the
  engine as the method leaves it.
\<close>

type_synonym cell = "int \<times> int"

record game =
  width :: int
  height :: int
  live_cells :: "cell set"
  generation :: int
  paused :: bool

subsection \<open>Errors\<close>

text \<open>
  The only exception that can leave a method of the class is the \<^verbatim>\<open>ValueError\<close>
  of \<^verbatim>\<open>load_pattern\<close>, raised by \<^verbatim>\<open>int\<close> on a field that is no integer
  literal (the message quotes that field) or by the unpacking \<^verbatim>\<open>x, y = ...\<close> when
  the line has not exactly two fields. A method that a caller may expect to fail returns
  \<open>py_error + game\<close>, with \<open>Inl\<close> for a raised exception.
\<close>

datatype py_error =
  ValueError_invalid_literal string
  | ValueError_not_enough_values nat
  | ValueError_too_many_values

subsection \<open>\<^verbatim>\<open>__init__\<close> and \<^verbatim>\<open>clear\<close>\<close>

text \<open>The constructor stores its arguments as they come; it has no \<^verbatim>\<open>raise\<close>.\<close>

definition GameOfLife :: "int \<Rightarrow> int \<Rightarrow> py_error + game" where
  "GameOfLife w h =
     Inr \<lparr>width = w, height = h, live_cells = {}, generation = 0, paused = True\<rparr>"

definition clear :: "game \<Rightarrow> game" where
  "clear g = g\<lparr>live_cells := {}, generation := 0\<rparr>"

subsection \<open>\<^verbatim>\<open>count_live_neighbors\<close>\<close>

text \<open>
  The two nested loops over the literal list \<^verbatim>\<open>[-1, 0, 1]\<close> are two nested folds
  that thread the counter; \<^verbatim>\<open>continue\<close> hands the counter on unchanged.
\<close>

definition offsets :: "int list" where
  "offsets = [-1, 0, 1]"

definition count_live_neighbors :: "game \<Rightarrow> int \<Rightarrow> int \<Rightarrow> int" where
  "count_live_neighbors g x y =
     fold (\<lambda>dy count.
       fold (\<lambda>dx count.
         if dx = 0 \<and> dy = 0 then count
         else
           let nx = x + dx; ny = y + dy in
           if 0 \<le> nx \<and> nx < width g \<and> 0 \<le> ny \<and> ny < height g then
             (if (nx, ny) \<in> live_cells g then count + 1 else count)
           else count)
         offsets count)
       offsets 0"

subsection \<open>\<^verbatim>\<open>next_generation\<close>\<close>

text \<open>
  The first loop runs over the live-cell set, whose iteration order Python leaves open.
  Its body only ever adds to \<^verbatim>\<open>candidates\<close>, so the set it builds is the union of
  what each live cell contributes; \<open>around\<close> is the contribution of one live cell,
  the two inner loops over \<^verbatim>\<open>[-1, 0, 1]\<close> as folds.
\<close>

definition around :: "game \<Rightarrow> cell \<Rightarrow> cell set" where
  "around g c =
     (case c of (x, y) \<Rightarrow>
       fold (\<lambda>dy acc.
         fold (\<lambda>dx acc.
           let nx = x + dx; ny = y + dy in
           if 0 \<le> nx \<and> nx < width g \<and> 0 \<le> ny \<and> ny < height g then insert (nx, ny) acc
           else acc)
           offsets acc)
         offsets {})"

definition candidates :: "game \<Rightarrow> cell set" where
  "candidates g = \<Union> (around g ` live_cells g)"

text \<open>
  The test of the second loop: the \<^verbatim>\<open>if\<close> and the \<^verbatim>\<open>elif\<close> both add the
  cell, so the cell is added exactly when one of the two conditions holds.
\<close>

definition lives_on :: "game \<Rightarrow> cell \<Rightarrow> bool" where
  "lives_on g c =
     (case c of (x, y) \<Rightarrow>
       let live_neighbors = count_live_neighbors g x y in
       if (x, y) \<in> live_cells g \<and> (live_neighbors = 2 \<or> live_neighbors = 3) then True
       else if (x, y) \<notin> live_cells g \<and> live_neighbors = 3 then True
       else False)"

definition next_generation :: "game \<Rightarrow> game" where
  "next_generation g =
     (let new_live_cells = {c \<in> candidates g. lives_on g c} in
      g\<lparr>live_cells := new_live_cells, generation := generation g + 1\<rparr>)"

subsection \<open>\<^verbatim>\<open>toggle_cell\<close>\<close>

text \<open>
  \<^verbatim>\<open>remove\<close> is called only on a member, so it cannot raise \<^verbatim>\<open>KeyError\<close>;
  the method has no other statement that could fail.
\<close>

definition toggle_cell :: "game \<Rightarrow> int \<Rightarrow> int \<Rightarrow> py_error + game" where
  "toggle_cell g x y =
     (if (x, y) \<in> live_cells g then Inr (g\<lparr>live_cells := live_cells g - {(x, y)}\<rparr>)
      else Inr (g\<lparr>live_cells := insert (x, y) (live_cells g)\<rparr>))"

section \<open>Notions of the specification\<close>

text \<open>
  The bounds test that the source writes out at each use, the rectangle of cells it
  describes, and the eight positions around a cell.
\<close>

definition in_grid :: "game \<Rightarrow> cell \<Rightarrow> bool" where
  "in_grid g c = (case c of (x, y) \<Rightarrow> 0 \<le> x \<and> x < width g \<and> 0 \<le> y \<and> y < height g)"

definition grid :: "game \<Rightarrow> cell set" where
  "grid g = {0..<width g} \<times> {0..<height g}"

definition moore :: "cell \<Rightarrow> cell set" where
  "moore c = (case c of (x, y) \<Rightarrow>
     {(x - 1, y - 1), (x, y - 1), (x + 1, y - 1),
      (x - 1, y), (x + 1, y),
      (x - 1, y + 1), (x, y + 1), (x + 1, y + 1)})"

text \<open>
  Conway's rule as the specification words it, the number of live neighbours as it
  describes it (live cells among the eight surrounding positions, positions off the grid
  being dead), and one generation computed by visiting every cell of the grid.
\<close>

definition conway_rule :: "bool \<Rightarrow> int \<Rightarrow> bool" where
  "conway_rule alive n = (if alive then n = 2 \<or> n = 3 else n = 3)"

definition live_neighbours :: "game \<Rightarrow> cell \<Rightarrow> int" where
  "live_neighbours g c = int (card (moore c \<inter> grid g \<inter> live_cells g))"

definition full_grid_step :: "game \<Rightarrow> cell set" where
  "full_grid_step g =
     {c \<in> grid g. conway_rule (c \<in> live_cells g) (live_neighbours g c)}"

text \<open>
  The engine that \<^verbatim>\<open>test_blinker.py\<close> sets up, on a grid of any size: a fresh
  engine whose live cells are the horizontal blinker.
\<close>

definition blinker_game :: "int \<Rightarrow> int \<Rightarrow> game" where
  "blinker_game w h =
     \<lparr>width = w, height = h, live_cells = {(1, 2), (2, 2), (3, 2)}, generation = 0,
      paused = True\<rparr>"

section \<open>Properties of the transition\<close>

subsection \<open>The loops as sets and sums\<close>

lemma fold_insert_if:
  "fold (\<lambda>d acc. if P d then insert (f d) acc else acc) ds A = A \<union> f ` {d \<in> set ds. P d}"
  by (induction ds arbitrary: A) auto

lemma fold_union:
  "fold (\<lambda>d acc. acc \<union> S d) ds A = A \<union> (\<Union>d\<in>set ds. S d)"
  by (induction ds arbitrary: A) auto

lemma fold_count_if:
  "fold (\<lambda>d (c::int). if Q d then c + 1 else c) ds c0 = c0 + (\<Sum>d\<leftarrow>ds. of_bool (Q d))"
  by (induction ds arbitrary: c0) auto

lemma fold_add:
  "fold (\<lambda>d (c::int). c + F d) ds c0 = c0 + (\<Sum>d\<leftarrow>ds. F d)"
  by (induction ds arbitrary: c0) auto

lemma around_eq:
  "around g (x, y) =
     (\<Union>dy\<in>set offsets. (\<lambda>dx. (x + dx, y + dy)) ` {dx \<in> set offsets. in_grid g (x + dx, y + dy)})"
proof -
  have inner: "(\<lambda>dy acc. fold (\<lambda>dx acc.
           let nx = x + dx; ny = y + dy in
           if 0 \<le> nx \<and> nx < width g \<and> 0 \<le> ny \<and> ny < height g then insert (nx, ny) acc
           else acc) offsets acc)
     = (\<lambda>dy acc. acc \<union> (\<lambda>dx. (x + dx, y + dy)) ` {dx \<in> set offsets. in_grid g (x + dx, y + dy)})"
    by (simp add: Let_def in_grid_def fold_insert_if)
  show ?thesis
    unfolding around_def by (simp only: prod.case inner fold_union) simp
qed

lemma count_eq_sum:
  "count_live_neighbors g x y =
     (\<Sum>dy\<leftarrow>offsets. \<Sum>dx\<leftarrow>offsets.
        of_bool (\<not> (dx = 0 \<and> dy = 0) \<and> in_grid g (x + dx, y + dy) \<and> (x + dx, y + dy) \<in> live_cells g))"
proof -
  have body: "(\<lambda>dy count. fold (\<lambda>dx count.
         if dx = 0 \<and> dy = 0 then count
         else
           let nx = x + dx; ny = y + dy in
           if 0 \<le> nx \<and> nx < width g \<and> 0 \<le> ny \<and> ny < height g then
             (if (nx, ny) \<in> live_cells g then count + 1 else count)
           else count)
         offsets count)
     = (\<lambda>dy count. fold (\<lambda>dx count. if \<not> (dx = 0 \<and> dy = 0) \<and> in_grid g (x + dx, y + dy) \<and> (x + dx, y + dy) \<in> live_cells g then count + 1 else count) offsets count)"
    by (auto simp: fun_eq_iff Let_def in_grid_def intro!: fold_cong)
  show ?thesis
    unfolding count_live_neighbors_def by (simp only: body fold_count_if fold_add) 
qed

lemma offsets_iff: "d \<in> set offsets \<longleftrightarrow> \<bar>d\<bar> \<le> 1"
  unfolding offsets_def by (simp add: abs_le_iff) presburger

lemma around_iff:
  "(a, b) \<in> around g (x, y) \<longleftrightarrow>
     in_grid g (a, b) \<and> \<bar>a - x\<bar> \<le> 1 \<and> \<bar>b - y\<bar> \<le> 1"
proof
  assume "(a, b) \<in> around g (x, y)"
  then obtain dx dy where d: "dx \<in> set offsets" "dy \<in> set offsets"
      "in_grid g (x + dx, y + dy)" "a = x + dx" "b = y + dy"
    unfolding around_eq by blast
  from d(3) have "in_grid g (a, b)" by (simp add: d(4,5))
  moreover from d(1,2) have "\<bar>a - x\<bar> \<le> 1" "\<bar>b - y\<bar> \<le> 1"
    by (simp_all add: d(4,5) offsets_iff)
  ultimately show "in_grid g (a, b) \<and> \<bar>a - x\<bar> \<le> 1 \<and> \<bar>b - y\<bar> \<le> 1"
    by simp
next
  assume r: "in_grid g (a, b) \<and> \<bar>a - x\<bar> \<le> 1 \<and> \<bar>b - y\<bar> \<le> 1"
  then have "a - x \<in> set offsets" "b - y \<in> set offsets" "in_grid g (x + (a - x), y + (b - y))"
    by (simp_all add: offsets_iff)
  moreover have "(a, b) = (x + (a - x), y + (b - y))" by simp
  ultimately show "(a, b) \<in> around g (x, y)"
    unfolding around_eq by blast
qed

lemma card_insert_Int:
  "finite S \<Longrightarrow> a \<notin> S \<Longrightarrow> card (insert a S \<inter> A) = of_bool (a \<in> A) + card (S \<inter> A)"
  by (cases "a \<in> A") simp_all

lemma count_eq_card:
  "count_live_neighbors g x y = int (card (moore (x, y) \<inter> {c. in_grid g c \<and> c \<in> live_cells g}))"
  unfolding count_eq_sum moore_def offsets_def
  by (simp add: card_insert_Int)

lemma in_grid_iff: "in_grid g c \<longleftrightarrow> c \<in> grid g"
  by (cases c) (simp add: in_grid_def grid_def)

lemma moore_iff: "(a, b) \<in> moore (x, y) \<longleftrightarrow> \<bar>a - x\<bar> \<le> 1 \<and> \<bar>b - y\<bar> \<le> 1 \<and> (a, b) \<noteq> (x, y)"
proof -
  have "(a, b) \<in> moore (x, y) \<longleftrightarrow>
          (a = x - 1 \<or> a = x \<or> a = x + 1) \<and> (b = y - 1 \<or> b = y \<or> b = y + 1) \<and> \<not> (a = x \<and> b = y)"
    unfolding moore_def by (simp only: prod.case insert_iff empty_iff prod.inject) presburger
  also have "\<dots> \<longleftrightarrow> \<bar>a - x\<bar> \<le> 1 \<and> \<bar>b - y\<bar> \<le> 1 \<and> (a, b) \<noteq> (x, y)"
    by (simp only: prod.inject abs_le_iff) presburger
  finally show ?thesis .
qed

lemma candidates_iff:
  "c \<in> candidates g \<longleftrightarrow>
     c \<in> grid g \<and> (\<exists>l\<in>live_cells g. \<bar>fst c - fst l\<bar> \<le> 1 \<and> \<bar>snd c - snd l\<bar> \<le> 1)"
proof -
  have "c \<in> candidates g \<longleftrightarrow> (\<exists>l\<in>live_cells g. (fst c, snd c) \<in> around g (fst l, snd l))"
    by (simp add: candidates_def)
  then show ?thesis
    by (simp only: around_iff in_grid_iff) simp
qed

lemma count_live_neighbours: "count_live_neighbors g x y = live_neighbours g (x, y)"
proof -
  have "{c. in_grid g c \<and> c \<in> live_cells g} = grid g \<inter> live_cells g"
    by (auto simp: in_grid_iff)
  then show ?thesis
    by (simp add: count_eq_card live_neighbours_def Int_assoc)
qed

lemma lives_on_conway: "lives_on g c \<longleftrightarrow> conway_rule (c \<in> live_cells g) (live_neighbours g c)"
  by (cases c) (simp add: lives_on_def conway_rule_def count_live_neighbours Let_def)

lemma far_cell_dead:
  assumes "c \<in> grid g" "c \<notin> candidates g"
  shows "c \<notin> live_cells g" "live_neighbours g c = 0"
proof -
  show "c \<notin> live_cells g"
  proof
    assume "c \<in> live_cells g"
    then have "\<exists>l\<in>live_cells g. \<bar>fst c - fst l\<bar> \<le> 1 \<and> \<bar>snd c - snd l\<bar> \<le> 1"
      by (intro bexI[of _ c]) simp_all
    with assms show False by (simp add: candidates_iff)
  qed
  have "moore c \<inter> grid g \<inter> live_cells g = {}"
  proof (rule ccontr)
    assume "moore c \<inter> grid g \<inter> live_cells g \<noteq> {}"
    then obtain l where l: "l \<in> moore c" "l \<in> live_cells g" by blast
    from l(1) have "(fst l, snd l) \<in> moore (fst c, snd c)" by simp
    then have "\<bar>fst l - fst c\<bar> \<le> 1 \<and> \<bar>snd l - snd c\<bar> \<le> 1"
      by (simp only: moore_iff)
    then have "\<bar>fst c - fst l\<bar> \<le> 1 \<and> \<bar>snd c - snd l\<bar> \<le> 1"
      by (simp add: abs_minus_commute)
    with l(2) have "\<exists>l\<in>live_cells g. \<bar>fst c - fst l\<bar> \<le> 1 \<and> \<bar>snd c - snd l\<bar> \<le> 1"
      by blast
    with assms show False by (simp add: candidates_iff)
  qed
  then show "live_neighbours g c = 0"
    by (simp add: live_neighbours_def)
qed

lemma candidates_in_grid: "candidates g \<subseteq> grid g"
  using candidates_iff by blast

lemma filter_candidates_grid:
  "{c \<in> candidates g. lives_on g c} = {c \<in> grid g. lives_on g c}"
proof -
  have "\<not> lives_on g c" if "c \<in> grid g" "c \<notin> candidates g" for c
    using far_cell_dead[OF that] by (simp add: lives_on_conway conway_rule_def)
  then show ?thesis
    using candidates_in_grid[of g] by blast
qed

lemma next_generation_full_grid: "live_cells (next_generation g) = full_grid_step g"
  by (simp add: next_generation_def full_grid_step_def filter_candidates_grid Let_def) (simp add: lives_on_conway)

lemma card_moore: "card (moore c) = 8"
  by (cases c) (simp add: moore_def)

lemma live_neighbours_bounds: "0 \<le> live_neighbours g c \<and> live_neighbours g c \<le> 8"
proof -
  have "finite (moore c)"
    by (cases c) (simp add: moore_def)
  then have "card (moore c \<inter> grid g \<inter> live_cells g) \<le> card (moore c)"
    by (intro card_mono) blast+
  then show ?thesis by (simp add: live_neighbours_def card_moore)
qed

subsection \<open>Two concrete steps on any grid of at least 5 by 5\<close>

lemma cand_vertical:
  assumes "5 \<le> width g" "5 \<le> height g" "live_cells g = {(2, 1), (2, 2), (2, 3)}"
  shows "candidates g =
      {(1, 0), (2, 0), (3, 0),
       (1, 1), (2, 1), (3, 1),
       (1, 2), (2, 2), (3, 2),
       (1, 3), (2, 3), (3, 3),
       (1, 4), (2, 4), (3, 4)}"
proof -
  have w: "0 < width g" "1 < width g" "2 < width g" "3 < width g" "4 < width g"
    and h: "0 < height g" "1 < height g" "2 < height g" "3 < height g" "4 < height g"
    using assms(1,2) by simp_all
  note live = assms(3)
  show ?thesis
    by (simp add: candidates_def around_def offsets_def live w h insert_commute)
qed

lemma count_unfold:
  "count_live_neighbors g x y =
     of_bool (in_grid g (x - 1, y - 1) \<and> (x - 1, y - 1) \<in> live_cells g)
   + of_bool (in_grid g (x, y - 1) \<and> (x, y - 1) \<in> live_cells g)
   + of_bool (in_grid g (x + 1, y - 1) \<and> (x + 1, y - 1) \<in> live_cells g)
   + of_bool (in_grid g (x - 1, y) \<and> (x - 1, y) \<in> live_cells g)
   + of_bool (in_grid g (x + 1, y) \<and> (x + 1, y) \<in> live_cells g)
   + of_bool (in_grid g (x - 1, y + 1) \<and> (x - 1, y + 1) \<in> live_cells g)
   + of_bool (in_grid g (x, y + 1) \<and> (x, y + 1) \<in> live_cells g)
   + of_bool (in_grid g (x + 1, y + 1) \<and> (x + 1, y + 1) \<in> live_cells g)"
  unfolding count_eq_sum offsets_def by simp

lemma step_vertical:
  assumes "5 \<le> width g" "5 \<le> height g" "live_cells g = {(2, 1), (2, 2), (2, 3)}"
  shows "live_cells (next_generation g) = {(1, 2), (2, 2), (3, 2)}"
proof -
  have w: "0 < width g" "1 < width g" "2 < width g" "3 < width g" "4 < width g"
    and h: "0 < height g" "1 < height g" "2 < height g" "3 < height g" "4 < height g"
    using assms(1,2) by simp_all
  note live = assms(3)
  note cand = cand_vertical[OF assms]
  have l: "lives_on g c \<longleftrightarrow> c \<in> {(1, 2), (2, 2), (3, 2)}"
    if "c \<in> candidates g" for c
    using that unfolding cand lives_on_def count_unfold in_grid_def
    by (elim insertE emptyE; simp add: live w h)
  have "{c \<in> candidates g. lives_on g c} = {c \<in> candidates g. c \<in> {(1, 2), (2, 2), (3, 2)}}"
    using l by blast
  also have "\<dots> = {(1, 2), (2, 2), (3, 2)}"
    unfolding cand by blast
  finally show ?thesis
    by (simp add: next_generation_def)
qed

lemma cand_horizontal:
  assumes "5 \<le> width g" "5 \<le> height g" "live_cells g = {(1, 2), (2, 2), (3, 2)}"
  shows "candidates g =
      {(0, 1), (1, 1), (2, 1), (3, 1), (4, 1),
       (0, 2), (1, 2), (2, 2), (3, 2), (4, 2),
       (0, 3), (1, 3), (2, 3), (3, 3), (4, 3)}"
proof -
  have w: "0 < width g" "1 < width g" "2 < width g" "3 < width g" "4 < width g"
    and h: "0 < height g" "1 < height g" "2 < height g" "3 < height g" "4 < height g"
    using assms(1,2) by simp_all
  note live = assms(3)
  show ?thesis
    by (simp add: candidates_def around_def offsets_def live w h insert_commute)
qed

lemma step_horizontal:
  assumes "5 \<le> width g" "5 \<le> height g" "live_cells g = {(1, 2), (2, 2), (3, 2)}"
  shows "live_cells (next_generation g) = {(2, 1), (2, 2), (2, 3)}"
proof -
  have w: "0 < width g" "1 < width g" "2 < width g" "3 < width g" "4 < width g"
    and h: "0 < height g" "1 < height g" "2 < height g" "3 < height g" "4 < height g"
    using assms(1,2) by simp_all
  note live = assms(3)
  note cand = cand_horizontal[OF assms]
  have l: "lives_on g c \<longleftrightarrow> c \<in> {(2, 1), (2, 2), (2, 3)}"
    if "c \<in> candidates g" for c
    using that unfolding cand lives_on_def count_unfold in_grid_def
    by (elim insertE emptyE; simp add: live w h)
  have "{c \<in> candidates g. lives_on g c} = {c \<in> candidates g. c \<in> {(2, 1), (2, 2), (2, 3)}}"
    using l by blast
  also have "\<dots> = {(2, 1), (2, 2), (2, 3)}"
    unfolding cand by blast
  finally show ?thesis
    by (simp add: next_generation_def)
qed

lemma next_generation_fields:
  "width (next_generation g) = width g"
  "height (next_generation g) = height g"
  "generation (next_generation g) = generation g + 1"
  "paused (next_generation g) = paused g"
  by (simp_all add: next_generation_def)

lemma live_cells_next_generation:
  "live_cells (next_generation g) = {c \<in> candidates g. lives_on g c}"
  by (simp add: next_generation_def)

subsection \<open>The blinker\<close>

text \<open>
  C9. On a grid of at least 5 by 5 whose live cells are \<open>{(1,2), (2,2), (3,2)}\<close>, one
  call of \<^verbatim>\<open>next_generation\<close> leaves exactly \<open>{(2,1), (2,2), (2,3)}\<close>, a second
  call leaves exactly \<open>{(1,2), (2,2), (3,2)}\<close> again, and each call adds one to the
  generation counter.
\<close>

theorem blinker_oscillates:
  assumes "5 \<le> width g" and "5 \<le> height g"
    and "live_cells g = {(1, 2), (2, 2), (3, 2)}"
  shows "live_cells (next_generation g) = {(2, 1), (2, 2), (2, 3)}
    \<and> generation (next_generation g) = generation g + 1
    \<and> live_cells (next_generation (next_generation g)) = {(1, 2), (2, 2), (3, 2)}
    \<and> generation (next_generation (next_generation g)) = generation g + 2"
proof -
  have first: "live_cells (next_generation g) = {(2, 1), (2, 2), (2, 3)}"
    using assms by (rule step_horizontal)
  have "live_cells (next_generation (next_generation g)) = {(1, 2), (2, 2), (3, 2)}"
    by (rule step_vertical) (simp_all add: next_generation_fields assms first)
  with first show ?thesis
    by (simp add: next_generation_fields)
qed

theorem blinker_oscillates_witness:
  "5 \<le> width (blinker_game 5 5) \<and> 5 \<le> height (blinker_game 5 5)
   \<and> live_cells (blinker_game 5 5) = {(1, 2), (2, 2), (3, 2)}
   \<and> live_cells (next_generation (blinker_game 5 5)) = {(2, 1), (2, 2), (2, 3)}
   \<and> generation (next_generation (blinker_game 5 5)) = 1
   \<and> live_cells (next_generation (next_generation (blinker_game 5 5))) = {(1, 2), (2, 2), (3, 2)}
   \<and> generation (next_generation (next_generation (blinker_game 5 5))) = 2"
  using blinker_oscillates [of "blinker_game 5 5"] by (simp add: blinker_game_def)

subsection \<open>The candidate set and the test engine\<close>

lemma candidates_live_and_neighbours:
  assumes "live_cells g \<subseteq> grid g"
  shows "candidates g = live_cells g \<union> (\<Union>l\<in>live_cells g. moore l \<inter> grid g)"
proof (rule set_eqI)
  fix c :: cell
  obtain a b where c: "c = (a, b)" by (cases c)
  have near: "(\<bar>a - fst l\<bar> \<le> 1 \<and> \<bar>b - snd l\<bar> \<le> 1) \<longleftrightarrow> (c = l \<or> c \<in> moore l)" for l :: cell
    by (cases l) (auto simp: c moore_iff)
  have "c \<in> candidates g \<longleftrightarrow> c \<in> grid g \<and> (\<exists>l\<in>live_cells g. c = l \<or> c \<in> moore l)"
    by (simp add: candidates_iff c near[unfolded c])
  also have "\<dots> \<longleftrightarrow> c \<in> live_cells g \<union> (\<Union>l\<in>live_cells g. moore l \<inter> grid g)"
    using assms by blast
  finally show "c \<in> candidates g \<longleftrightarrow> c \<in> live_cells g \<union> (\<Union>l\<in>live_cells g. moore l \<inter> grid g)" .
qed

lemma blinker_counts:
  "count_live_neighbors (blinker_game 5 5) 2 2 = 2"
  "count_live_neighbors (blinker_game 5 5) 1 2 = 1"
  "count_live_neighbors (blinker_game 5 5) 2 1 = 3"
  "count_live_neighbors (blinker_game 5 5) 0 0 = 0"
  by (simp_all add: count_unfold in_grid_def blinker_game_def)

lemma blinker_candidates:
  "candidates (blinker_game 5 5) =
      {(0, 1), (1, 1), (2, 1), (3, 1), (4, 1),
       (0, 2), (1, 2), (2, 2), (3, 2), (4, 2),
       (0, 3), (1, 3), (2, 3), (3, 3), (4, 3)}"
  by (rule cand_horizontal) (simp_all add: blinker_game_def)

lemma blinker_next:
  "live_cells (next_generation (blinker_game 5 5)) = {(2, 1), (2, 2), (2, 3)}"
  by (rule step_horizontal) (simp_all add: blinker_game_def)

section \<open>The claims about the transition\<close>

text \<open>
  C1. For every engine state, \<^verbatim>\<open>next_generation\<close> evaluates each candidate cell
  against the live-cell set it started from: the new set holds candidate cells only; a
  candidate that is live is in the new set exactly when its live-neighbour count is 2 or
  3; a candidate that is dead is in the new set exactly when its count is 3. The new set
  replaces the old one, the generation counter grows by exactly 1, and the other attributes
  stay as they were.
\<close>

theorem next_generation_rule:
  "live_cells (next_generation g) \<subseteq> candidates g
   \<and> (\<forall>c\<in>candidates g. c \<in> live_cells g \<longrightarrow>
        (c \<in> live_cells (next_generation g) \<longleftrightarrow>
           count_live_neighbors g (fst c) (snd c) = 2 \<or> count_live_neighbors g (fst c) (snd c) = 3))
   \<and> (\<forall>c\<in>candidates g. c \<notin> live_cells g \<longrightarrow>
        (c \<in> live_cells (next_generation g) \<longleftrightarrow> count_live_neighbors g (fst c) (snd c) = 3))
   \<and> generation (next_generation g) = generation g + 1
   \<and> width (next_generation g) = width g \<and> height (next_generation g) = height g
   \<and> paused (next_generation g) = paused g"
  by (simp add: next_generation_fields live_cells_next_generation lives_on_def split_beta Let_def)

theorem next_generation_rule_witness:
  "(2, 2) \<in> candidates (blinker_game 5 5) \<and> (2, 2) \<in> live_cells (blinker_game 5 5)
   \<and> count_live_neighbors (blinker_game 5 5) 2 2 = 2
   \<and> (2, 2) \<in> live_cells (next_generation (blinker_game 5 5))
   \<and> (1, 2) \<in> candidates (blinker_game 5 5) \<and> (1, 2) \<in> live_cells (blinker_game 5 5)
   \<and> count_live_neighbors (blinker_game 5 5) 1 2 = 1
   \<and> (1, 2) \<notin> live_cells (next_generation (blinker_game 5 5))
   \<and> (2, 1) \<in> candidates (blinker_game 5 5) \<and> (2, 1) \<notin> live_cells (blinker_game 5 5)
   \<and> count_live_neighbors (blinker_game 5 5) 2 1 = 3
   \<and> (2, 1) \<in> live_cells (next_generation (blinker_game 5 5))
   \<and> generation (next_generation (blinker_game 5 5)) = 1"
proof -
  have live: "live_cells (blinker_game 5 5) = {(1, 2), (2, 2), (3, 2)}"
    and gen: "generation (blinker_game 5 5) = 0"
    by (simp_all add: blinker_game_def)
  have c: "(2, 2) \<in> candidates (blinker_game 5 5)" "(1, 2) \<in> candidates (blinker_game 5 5)"
    "(2, 1) \<in> candidates (blinker_game 5 5)"
    by (simp_all add: blinker_candidates)
  from next_generation_rule [of "blinker_game 5 5"]
  have r: "\<forall>c\<in>candidates (blinker_game 5 5). c \<in> live_cells (blinker_game 5 5) \<longrightarrow>
        (c \<in> live_cells (next_generation (blinker_game 5 5)) \<longleftrightarrow>
           count_live_neighbors (blinker_game 5 5) (fst c) (snd c) = 2
           \<or> count_live_neighbors (blinker_game 5 5) (fst c) (snd c) = 3)"
    and b: "\<forall>c\<in>candidates (blinker_game 5 5). c \<notin> live_cells (blinker_game 5 5) \<longrightarrow>
        (c \<in> live_cells (next_generation (blinker_game 5 5)) \<longleftrightarrow>
           count_live_neighbors (blinker_game 5 5) (fst c) (snd c) = 3)"
    and g: "generation (next_generation (blinker_game 5 5)) = generation (blinker_game 5 5) + 1"
    by simp_all
  from r c(1) have "(2, 2) \<in> live_cells (next_generation (blinker_game 5 5))"
    by (simp add: live blinker_counts)
  moreover from r c(2) have "(1, 2) \<notin> live_cells (next_generation (blinker_game 5 5))"
    by (simp add: live blinker_counts)
  moreover from b c(3) have "(2, 1) \<in> live_cells (next_generation (blinker_game 5 5))"
    by (simp add: live blinker_counts)
  ultimately show ?thesis
    using c g by (simp add: live gen blinker_counts)
qed

text \<open>
  C2. When every live cell lies within \<open>[0,W) \<times> [0,H)\<close>, the candidate set is the
  union of the live cells and their in-bounds Moore neighbours, and evaluating only the
  candidates yields exactly the set that Conway's rule yields when it is applied to every
  cell of the whole grid (\<open>full_grid_step\<close>).
\<close>

theorem candidate_set_refines_full_grid:
  assumes "live_cells g \<subseteq> {0..<width g} \<times> {0..<height g}"
  shows "candidates g = live_cells g \<union> (\<Union>l\<in>live_cells g. moore l \<inter> grid g)
    \<and> live_cells (next_generation g) = full_grid_step g"
  using assms candidates_live_and_neighbours[of g] next_generation_full_grid[of g]
  by (simp add: grid_def)

theorem candidate_set_refines_full_grid_witness:
  "live_cells (blinker_game 5 5) \<subseteq> {0..<width (blinker_game 5 5)} \<times> {0..<height (blinker_game 5 5)}
   \<and> live_cells (next_generation (blinker_game 5 5)) = {(2, 1), (2, 2), (2, 3)}
   \<and> full_grid_step (blinker_game 5 5) = {(2, 1), (2, 2), (2, 3)}"
proof -
  have inside: "live_cells (blinker_game 5 5)
      \<subseteq> {0..<width (blinker_game 5 5)} \<times> {0..<height (blinker_game 5 5)}"
    by (simp add: blinker_game_def)
  from candidate_set_refines_full_grid [OF inside]
  have "full_grid_step (blinker_game 5 5) = live_cells (next_generation (blinker_game 5 5))"
    by simp
  with inside show ?thesis
    by (simp add: blinker_next)
qed

text \<open>
  C8. For an in-bounds cell \<open>(x, y)\<close> and any live-cell set,
  \<^verbatim>\<open>count_live_neighbors\<close> returns the number of live cells among the eight Moore
  positions of \<open>(x, y)\<close> that lie on the grid; the cell itself is not among the eight,
  positions off the grid count as dead, and the result is between 0 and 8.
\<close>

theorem count_live_neighbors_moore:
  assumes "0 \<le> x" and "x < width g" and "0 \<le> y" and "y < height g"
  shows "count_live_neighbors g x y = int (card (moore (x, y) \<inter> grid g \<inter> live_cells g))
    \<and> 0 \<le> count_live_neighbors g x y \<and> count_live_neighbors g x y \<le> 8
    \<and> (x, y) \<notin> moore (x, y) \<and> card (moore (x, y)) = 8"
  using live_neighbours_bounds[of g "(x, y)"]
  by (simp add: count_live_neighbours card_moore moore_iff) (simp add: live_neighbours_def)

theorem count_live_neighbors_moore_witness:
  "(0::int) \<le> 2 \<and> 2 < width (blinker_game 5 5) \<and> 2 < height (blinker_game 5 5)
   \<and> count_live_neighbors (blinker_game 5 5) 2 2 = 2
   \<and> card (moore (2, 2) \<inter> grid (blinker_game 5 5) \<inter> live_cells (blinker_game 5 5)) = 2
   \<and> (0::int) \<le> 0 \<and> 0 < width (blinker_game 5 5) \<and> 0 < height (blinker_game 5 5)
   \<and> count_live_neighbors (blinker_game 5 5) 0 0 = 0
   \<and> card (moore (0, 0) \<inter> grid (blinker_game 5 5) \<inter> live_cells (blinker_game 5 5)) = 0"
proof -
  have b: "(0::int) \<le> 2" "2 < width (blinker_game 5 5)" "2 < height (blinker_game 5 5)"
    "(0::int) \<le> 0" "0 < width (blinker_game 5 5)" "0 < height (blinker_game 5 5)"
    by (simp_all add: blinker_game_def)
  from count_live_neighbors_moore [OF b(1) b(2) b(1) b(3)]
    count_live_neighbors_moore [OF b(4) b(5) b(4) b(6)]
  show ?thesis
    using b by (simp add: blinker_counts)
qed

text \<open>
  C10. Whatever the live-cell set before the call, also one with cells off the grid, the
  set that \<^verbatim>\<open>next_generation\<close> leaves holds only cells within
  \<open>[0,W) \<times> [0,H)\<close>; the bounds themselves do not change. The witness starts from
  the engine that \<^verbatim>\<open>toggle_cell\<close> builds by adding the cell \<open>(7, 7)\<close> to a 5 by 5
  grid.
\<close>

theorem next_generation_in_bounds:
  "live_cells (next_generation g) \<subseteq> {0..<width g} \<times> {0..<height g}
   \<and> width (next_generation g) = width g \<and> height (next_generation g) = height g"
  using candidates_in_grid[of g]
  by (auto simp: next_generation_fields live_cells_next_generation grid_def)

theorem next_generation_in_bounds_witness:
  "toggle_cell (blinker_game 5 5) 7 7 =
     Inr \<lparr>width = 5, height = 5, live_cells = {(7, 7), (1, 2), (2, 2), (3, 2)}, generation = 0,
          paused = True\<rparr>
   \<and> (7, 7) \<notin> live_cells (next_generation
       \<lparr>width = 5, height = 5, live_cells = {(7, 7), (1, 2), (2, 2), (3, 2)}, generation = 0,
        paused = True\<rparr>)
   \<and> live_cells (next_generation
       \<lparr>width = 5, height = 5, live_cells = {(7, 7), (1, 2), (2, 2), (3, 2)}, generation = 0,
        paused = True\<rparr>) \<subseteq> {0..<5} \<times> {0..<5}"
  using next_generation_in_bounds [of
    "\<lparr>width = 5, height = 5, live_cells = {(7, 7), (1, 2), (2, 2), (3, 2)}, generation = 0,
      paused = True\<rparr>"]
  by (auto simp: toggle_cell_def blinker_game_def)

section \<open>The claims about \<^verbatim>\<open>toggle_cell\<close> and the constructor\<close>

text \<open>
  C5, as the code has it. For every \<open>(x, y)\<close>, on the grid or off it,
  \<^verbatim>\<open>toggle_cell\<close> returns normally: it flips the membership of \<open>(x, y)\<close> in the
  live-cell set, leaves the membership of every other cell as it was, and changes neither
  the generation counter nor any other attribute.
\<close>

theorem toggle_cell_flips:
  "\<exists>g'. toggle_cell g x y = Inr g'
     \<and> ((x, y) \<in> live_cells g' \<longleftrightarrow> (x, y) \<notin> live_cells g)
     \<and> live_cells g' - {(x, y)} = live_cells g - {(x, y)}
     \<and> generation g' = generation g
     \<and> width g' = width g \<and> height g' = height g \<and> paused g' = paused g"
  by (simp add: toggle_cell_def)

text \<open>
  The claim as worded asks for a failure that leaves the state unchanged when
  \<open>(x, y)\<close> is off the grid. On a 5 by 5 grid the call with \<open>(7, 7)\<close> returns
  normally and the cell \<open>(7, 7)\<close> has become live.
\<close>

theorem toggle_cell_out_of_bounds_counterexample:
  "\<not> in_grid (blinker_game 5 5) (7, 7)
   \<and> toggle_cell (blinker_game 5 5) 7 7 =
     Inr \<lparr>width = 5, height = 5, live_cells = {(7, 7), (1, 2), (2, 2), (3, 2)}, generation = 0,
          paused = True\<rparr>
   \<and> (7, 7) \<notin> live_cells (blinker_game 5 5)"
  by (simp add: toggle_cell_def blinker_game_def in_grid_def)

text \<open>
  C6, as the code has it. The constructor returns an engine for every width and
  height, positive or not: the bounds are the arguments, the live-cell set is empty, the
  generation counter is 0 and the engine is paused.
\<close>

theorem GameOfLife_never_fails:
  "\<exists>g. GameOfLife w h = Inr g
     \<and> width g = w \<and> height g = h \<and> live_cells g = {} \<and> generation g = 0 \<and> paused g"
  by (simp add: GameOfLife_def)

text \<open>
  The claim as worded asks for a failure when a dimension is not positive. The call
  with width 0 and height -3 returns an engine.
\<close>

theorem GameOfLife_nonpositive_counterexample:
  "GameOfLife 0 (- 3) =
     Inr \<lparr>width = 0, height = - 3, live_cells = {}, generation = 0, paused = True\<rparr>"
  by (simp add: GameOfLife_def)

end
